theory Spec2Isabelle
  imports Main "HOL-Library.Word"
begin

section \<open>Bytes, errors and the library interface\<close>

text \<open>
  The module \<^verbatim>\<open>devp2p/crypto.py\<close> works on byte strings. A byte is an 8-bit word, a
  byte string a list of bytes, a Python integer an \<open>int\<close>. An exception is a value
  of the type \<open>error\<close>; a function that can raise returns \<open>error + 'a\<close>, with
  \<open>Inl\<close> for the exception. The module is read as Python 3, which its helpers
  (\<^verbatim>\<open>str_to_bytes\<close>, \<^verbatim>\<open>safe_ord\<close>, \<^verbatim>\<open>ascii_chr\<close>) and its bytes literals are for:
  a text string (\<^verbatim>\<open>str\<close>) is not a byte string, and adding one to the other raises
  \<^verbatim>\<open>TypeError\<close>.
\<close>

type_synonym byte = "8 word"
type_synonym bytes = "byte list"

datatype error =
    AssertionError
  | ECIESDecryptionError string
  | IndexError
  | StructError
  | TypeError
  | PyException string

text \<open>
  An \<^verbatim>\<open>ECCx\<close> object after \<^verbatim>\<open>pyelliptic.ECC.__init__\<close>: the private key (absent
  for a public-only key) and the two coordinates of the public key.
\<close>

record ecc =
  privkey :: "bytes option"
  pubkey_x :: bytes
  pubkey_y :: bytes

text \<open>
  The services the module calls and does not implement (hashlib, pyelliptic and
  OpenSSL, bitcoin, coincurve) are the fields of one record. A service that
  can raise returns a sum. The two sources of randomness are fields as well:
  \<open>pyelliptic_ECC_init n\<close> is the \<open>n\<close>-th call of \<^verbatim>\<open>pyelliptic.ECC.__init__\<close>
  (which generates a key when it is given no public key), \<open>gen_IV\<close> the
  initialisation vector drawn by \<^verbatim>\<open>pyelliptic.Cipher.gen_IV\<close>.
\<close>

record lib =
  sha256 :: "bytes \<Rightarrow> bytes"
  hmac_sha256 :: "bytes \<Rightarrow> bytes \<Rightarrow> bytes"
  Cipher_ciphering :: "bytes \<Rightarrow> bytes \<Rightarrow> nat \<Rightarrow> string \<Rightarrow> bytes \<Rightarrow> bytes"
  get_blocksize :: "string \<Rightarrow> nat"
  gen_IV :: "string \<Rightarrow> bytes"
  raw_get_ecdh_key :: "ecc \<Rightarrow> bytes \<Rightarrow> bytes \<Rightarrow> error + bytes"
  pyelliptic_ECC_init ::
    "nat \<Rightarrow> bytes option \<Rightarrow> bytes option \<Rightarrow> bytes option \<Rightarrow> error + ecc"
  get_privkey_format :: "bytes \<Rightarrow> error + string"
  bitcoin_privtopub :: "bytes \<Rightarrow> error + bytes"
  from_signature_and_message :: "bytes \<Rightarrow> bytes \<Rightarrow> error + bytes"

text \<open>
  Python's truth value of an optional byte string (\<^verbatim>\<open>None\<close> and \<^verbatim>\<open>b''\<close> are
  false), and the byte string itself.
\<close>

definition opt_bytes :: "bytes option \<Rightarrow> bytes" where
  "opt_bytes x = (case x of None \<Rightarrow> [] | Some b \<Rightarrow> b)"

definition truthy :: "bytes option \<Rightarrow> bool" where
  "truthy x = (opt_bytes x \<noteq> [])"

text \<open>\<^verbatim>\<open>key[:n]\<close> for an integer \<open>n\<close>: a negative \<open>n\<close> counts from the end.\<close>

definition py_take :: "int \<Rightarrow> 'a list \<Rightarrow> 'a list" where
  "py_take n xs = (if 0 \<le> n then take (nat n) xs else take (nat (int (length xs) + n)) xs)"

section \<open>The concatenation KDF\<close>

text \<open>
  \<^verbatim>\<open>struct.pack('>I', n)\<close>: the four bytes of \<open>n\<close>, big endian (\<open>be32\<close>), and an
  error for an \<open>n\<close> outside 32 bits.
\<close>

definition be32 :: "int \<Rightarrow> bytes" where
  "be32 n = [word_of_int (n div 2 ^ 24), word_of_int (n div 2 ^ 16),
             word_of_int (n div 2 ^ 8), word_of_int n]"

definition struct_pack_I :: "int \<Rightarrow> error + bytes" where
  "struct_pack_I n = (if 0 \<le> n \<and> n < 2 ^ 32 then Inr (be32 n) else Inl StructError)"

text \<open>
  The loop of \<^verbatim>\<open>eciesKDF\<close>: \<^verbatim>\<open>while counter <= reps\<close>, with the counter incremented
  before it is hashed, and \<^verbatim>\<open>s1 = b""\<close>. The hash is a parameter. \<^verbatim>\<open>reps\<close> is the
  quotient of two integers by \<^verbatim>\<open>/\<close>, a float on Python 3; the counter is an integer,
  so it is at most the quotient exactly when it is at most the quotient
  rounded down, which is \<open>div\<close>.
\<close>

function kdf_loop :: "(bytes \<Rightarrow> bytes) \<Rightarrow> bytes \<Rightarrow> int \<Rightarrow> int \<Rightarrow> bytes \<Rightarrow> error + bytes" where
  "kdf_loop H key_material reps counter key =
     (if counter \<le> reps
      then (case struct_pack_I (counter + 1) of
              Inl e \<Rightarrow> Inl e
            | Inr cb \<Rightarrow>
                kdf_loop H key_material reps (counter + 1) (key @ H (cb @ key_material @ [])))
      else Inr key)"
  by pat_completeness auto
termination
  by (relation "measure (\<lambda>(H, km, reps, counter, key). nat (reps + 1 - counter))") auto

declare kdf_loop.simps [simp del]

definition eciesKDF :: "(bytes \<Rightarrow> bytes) \<Rightarrow> bytes \<Rightarrow> int \<Rightarrow> error + bytes" where
  "eciesKDF H key_material key_len =
     (let hash_blocksize = 64;
          reps = ((key_len + 7) * 8) div (hash_blocksize * 8)
      in case kdf_loop H key_material reps 0 [] of
           Inl e \<Rightarrow> Inl e
         | Inr key \<Rightarrow> Inr (py_take key_len key))"

section \<open>The signature codec\<close>

text \<open>
  Modelled from the spec: \<^verbatim>\<open>bitcoin.encode(val, 256)\<close> and
  \<^verbatim>\<open>bitcoin.decode(string, 256)\<close> belong to the bitcoin library, whose source is
  not part of this repository. The spec describes \<open>r\<close> and \<open>s\<close> as big-endian
  unsigned integers, zero-padded to 32 bytes by \<^verbatim>\<open>lzpad32\<close>; the encoding of the
  library has no leading zero byte (zero is the empty string), and its
  decoding reads the digits from the left. For the base 256 the library works
  on byte strings.
\<close>

function bitcoin_encode :: "int \<Rightarrow> bytes" where
  "bitcoin_encode val =
     (if 0 < val then bitcoin_encode (val div 256) @ [word_of_int (val mod 256)] else [])"
  by pat_completeness auto
termination
  by (relation "measure nat") auto

declare bitcoin_encode.simps [simp del]

fun bitcoin_decode_from :: "int \<Rightarrow> bytes \<Rightarrow> int" where
  "bitcoin_decode_from result [] = result"
| "bitcoin_decode_from result (c # string) = bitcoin_decode_from (result * 256 + uint c) string"

definition bitcoin_decode :: "bytes \<Rightarrow> int" where
  "bitcoin_decode string = bitcoin_decode_from 0 string"

text \<open>
  The two kinds of string of Python 3: a text string (\<^verbatim>\<open>str\<close>, a list of code
  points) and a byte string (\<^verbatim>\<open>bytes\<close>). \<open>py_len\<close> is \<^verbatim>\<open>len\<close>, \<open>py_add\<close> is \<^verbatim>\<open>+\<close>:
  it joins two strings of one kind and raises \<^verbatim>\<open>TypeError\<close> for a text string
  and a byte string, whatever their lengths.
\<close>

datatype pystring = PyStr "nat list" | PyBytes bytes

fun py_len :: "pystring \<Rightarrow> nat" where
  "py_len (PyStr cs) = length cs"
| "py_len (PyBytes bs) = length bs"

fun py_add :: "pystring \<Rightarrow> pystring \<Rightarrow> error + pystring" where
  "py_add (PyStr a) (PyStr b) = Inr (PyStr (a @ b))"
| "py_add (PyBytes a) (PyBytes b) = Inr (PyBytes (a @ b))"
| "py_add (PyStr a) (PyBytes b) = Inl TypeError"
| "py_add (PyBytes a) (PyStr b) = Inl TypeError"

text \<open>
  \<^verbatim>\<open>lzpad32\<close> multiplies a text string of one zero character (a negative factor
  gives the empty string) and adds \<open>x\<close> to it.
\<close>

definition lzpad32 :: "pystring \<Rightarrow> error + pystring" where
  "lzpad32 x = py_add (PyStr (replicate (32 - py_len x) 0)) x"

text \<open>
  \<^verbatim>\<open>_encode_sig\<close>: \<^verbatim>\<open>chr(v - 27)\<close> is a text string of one character, the two
  encodings of the library are byte strings, and the sum is evaluated from
  the left: \<^verbatim>\<open>lzpad32(rb)\<close>, \<^verbatim>\<open>lzpad32(sb)\<close>, their sum, then the sum with \<^verbatim>\<open>vb\<close>.
\<close>

definition encode_sig :: "int \<Rightarrow> int \<Rightarrow> int \<Rightarrow> error + pystring" where
  "encode_sig v r s =
     (if v \<noteq> 27 \<and> v \<noteq> 28 then Inl AssertionError
      else let vb = PyStr [nat (v - 27)];
               rb = PyBytes (bitcoin_encode r);
               sb = PyBytes (bitcoin_encode s)
           in case lzpad32 rb of
                Inl e \<Rightarrow> Inl e
              | Inr rp \<Rightarrow>
                  (case lzpad32 sb of
                     Inl e \<Rightarrow> Inl e
                   | Inr sp \<Rightarrow>
                       (case py_add rp sp of
                          Inl e \<Rightarrow> Inl e
                        | Inr rs \<Rightarrow> py_add rs vb)))"

text \<open>
  \<^verbatim>\<open>_decode_sig\<close> of a byte string: \<^verbatim>\<open>sig[64]\<close> is the byte at offset 64 as an
  integer (\<^verbatim>\<open>safe_ord\<close> returns it as it is), and an \<^verbatim>\<open>IndexError\<close> for a string
  of 64 bytes or less.
\<close>

definition decode_sig :: "bytes \<Rightarrow> error + (int \<times> int \<times> int)" where
  "decode_sig sig =
     (if length sig \<le> 64 then Inl IndexError
      else Inr (uint (sig ! 64) + 27,
                bitcoin_decode (take 32 sig),
                bitcoin_decode (take 32 (drop 32 sig))))"

section \<open>Key objects\<close>

text \<open>The properties \<^verbatim>\<open>raw_pubkey\<close> and \<^verbatim>\<open>raw_privkey\<close> of an \<^verbatim>\<open>ECCx\<close> object.\<close>

definition raw_pubkey :: "ecc \<Rightarrow> bytes" where
  "raw_pubkey self = pubkey_x self @ pubkey_y self"

definition raw_privkey :: "ecc \<Rightarrow> bytes option" where
  "raw_privkey self = privkey self"

definition privtopub :: "lib \<Rightarrow> bytes \<Rightarrow> error + bytes" where
  "privtopub L priv =
     (case bitcoin_privtopub L priv of
        Inl e \<Rightarrow> Inl e
      | Inr pub \<Rightarrow> if length pub \<noteq> 64 then Inl AssertionError else Inr pub)"

text \<open>
  The \<^verbatim>\<open>try\<close> block of \<^verbatim>\<open>ECCx.__init__\<close>: an \<^verbatim>\<open>AssertionError\<close> of the format check
  makes the key invalid, any other exception propagates.
\<close>

definition valid_priv_key :: "lib \<Rightarrow> ecc \<Rightarrow> error + bool" where
  "valid_priv_key L self =
     (if truthy (raw_privkey self)
      then (case get_privkey_format L (opt_bytes (raw_privkey self)) of
              Inr fmt \<Rightarrow> Inr True
            | Inl e \<Rightarrow> if e = AssertionError then Inr False else Inl e)
      else Inr True)"

text \<open>
  One pass through the body of \<^verbatim>\<open>while True\<close> in \<^verbatim>\<open>ECCx.__init__\<close>, the \<open>n\<close>-th
  one: it leaves the loop with the key (\<^verbatim>\<open>break\<close>), raises, or goes round again
  (\<^verbatim>\<open>continue\<close>, or the end of the body).
\<close>

datatype loop_step = Continue | Break ecc | Raise error

definition ECCx_init_body ::
  "lib \<Rightarrow> bytes option \<Rightarrow> bytes option \<Rightarrow> bytes option \<Rightarrow> bytes option \<Rightarrow> nat \<Rightarrow> loop_step" where
  "ECCx_init_body L pub_arg priv_arg px py n =
     (case pyelliptic_ECC_init L n px py priv_arg of
        Inl e \<Rightarrow> Raise e
      | Inr self \<Rightarrow>
          if truthy (raw_privkey self) \<and> length (opt_bytes (raw_privkey self)) \<noteq> 32
          then Continue
          else (case valid_priv_key L self of
                  Inl e \<Rightarrow> Raise e
                | Inr valid \<Rightarrow>
                    if length (raw_pubkey self) = 64 \<and> valid then Break self
                    else if truthy priv_arg \<or> truthy pub_arg
                    then Raise (PyException ''invalid priv or pubkey'')
                    else Continue))"

text \<open>The loop has no bound: a run that never leaves it has no result (\<open>None\<close>).\<close>

partial_function (option) ECCx_init_loop ::
  "lib \<Rightarrow> bytes option \<Rightarrow> bytes option \<Rightarrow> bytes option \<Rightarrow> bytes option \<Rightarrow> nat
     \<Rightarrow> (error + ecc) option" where
  "ECCx_init_loop L pub_arg priv_arg px py n =
     (case ECCx_init_body L pub_arg priv_arg px py n of
        Continue \<Rightarrow> ECCx_init_loop L pub_arg priv_arg px py (Suc n)
      | Break self \<Rightarrow> Some (Inr self)
      | Raise e \<Rightarrow> Some (Inl e))"

definition ECCx_init :: "lib \<Rightarrow> bytes option \<Rightarrow> bytes option \<Rightarrow> (error + ecc) option" where
  "ECCx_init L raw_pubkey_arg raw_privkey_arg =
     (if truthy raw_privkey_arg \<and> truthy raw_pubkey_arg then Some (Inl AssertionError)
      else case (if truthy raw_privkey_arg
                 then map_sum id Some (privtopub L (opt_bytes raw_privkey_arg))
                 else Inr raw_pubkey_arg) of
             Inl e \<Rightarrow> Some (Inl e)
           | Inr pub_arg \<Rightarrow>
               if truthy pub_arg \<and> length (opt_bytes pub_arg) \<noteq> 64
               then Some (Inl AssertionError)
               else let px = (if truthy pub_arg then Some (take 32 (opt_bytes pub_arg)) else None);
                        py = (if truthy pub_arg then Some (drop 32 (opt_bytes pub_arg)) else None)
                    in case ECCx_init_loop L pub_arg raw_privkey_arg px py 0 of
                         None \<Rightarrow> None
                       | Some (Inl e) \<Rightarrow> Some (Inl e)
                       | Some (Inr self) \<Rightarrow>
                           if length (raw_pubkey self) \<noteq> 64 then Some (Inl AssertionError)
                           else Some (Inr self))"

text \<open>
  What the loop tests, as two predicates on a key that \<^verbatim>\<open>pyelliptic.ECC.__init__\<close>
  has returned: \<open>key_ok\<close> is the condition of the \<^verbatim>\<open>break\<close>; \<open>key_bad\<close> holds
  when the key is rejected without an exception (a private key that is not
  32 bytes long, a failed format check, a public key that is not 64 bytes
  long).
\<close>

definition key_ok :: "lib \<Rightarrow> ecc \<Rightarrow> bool" where
  "key_ok L self \<longleftrightarrow>
     \<not> (truthy (raw_privkey self) \<and> length (opt_bytes (raw_privkey self)) \<noteq> 32)
     \<and> valid_priv_key L self = Inr True
     \<and> length (raw_pubkey self) = 64"

definition key_bad :: "lib \<Rightarrow> ecc \<Rightarrow> bool" where
  "key_bad L self \<longleftrightarrow>
     (truthy (raw_privkey self) \<and> length (opt_bytes (raw_privkey self)) \<noteq> 32)
     \<or> valid_priv_key L self = Inr False
     \<or> (valid_priv_key L self = Inr True \<and> length (raw_pubkey self) \<noteq> 64)"

section \<open>ECIES\<close>

definition ecies_ciphername :: string where
  "ecies_ciphername = ''aes-128-ctr''"

definition ecies_encrypt_overhead_length :: nat where
  "ecies_encrypt_overhead_length = 113"

text \<open>
  \<^verbatim>\<open>ECCx.ecies_encrypt\<close> after the ephemeral key \<^verbatim>\<open>ephem = ECCx()\<close> has been
  generated. The two assertions on the length of the message are one test.
\<close>

definition ecies_encrypt_with :: "lib \<Rightarrow> ecc \<Rightarrow> bytes \<Rightarrow> bytes \<Rightarrow> bytes \<Rightarrow> error + bytes" where
  "ecies_encrypt_with L ephem data pub shared_mac_data =
     (case raw_get_ecdh_key L ephem (take 32 pub) (drop 32 pub) of
        Inl e \<Rightarrow> Inl e
      | Inr key_material \<Rightarrow>
          if length key_material \<noteq> 32 then Inl AssertionError
          else case eciesKDF (sha256 L) key_material 32 of
            Inl e \<Rightarrow> Inl e
          | Inr key \<Rightarrow>
              if length key \<noteq> 32 then Inl AssertionError
              else let key_enc = take 16 key;
                       key_mac = sha256 L (drop 16 key)
                   in if length key_mac \<noteq> 32 then Inl AssertionError
              else let ephem_pubkey = raw_pubkey ephem;
                       iv = gen_IV L ecies_ciphername
                   in if length iv \<noteq> 16 then Inl AssertionError
              else let ciphertext = Cipher_ciphering L key_enc iv 1 ecies_ciphername data
                   in if length ciphertext \<noteq> length data then Inl AssertionError
              else let msg = [4] @ ephem_pubkey @ iv @ ciphertext;
                       tag = hmac_sha256 L key_mac (drop (1 + 64) msg @ shared_mac_data)
                   in if length tag \<noteq> 32 then Inl AssertionError
              else let msg' = msg @ tag
                   in if length msg' \<noteq> 1 + 64 + 16 + 32 + length data
                         \<or> length msg' - ecies_encrypt_overhead_length \<noteq> length data
                      then Inl AssertionError
                      else Inr msg')"

definition ecies_encrypt :: "lib \<Rightarrow> bytes \<Rightarrow> bytes \<Rightarrow> bytes \<Rightarrow> (error + bytes) option" where
  "ecies_encrypt L data pub shared_mac_data =
     (case ECCx_init L None None of
        None \<Rightarrow> None
      | Some (Inl e) \<Rightarrow> Some (Inl e)
      | Some (Inr ephem) \<Rightarrow> Some (ecies_encrypt_with L ephem data pub shared_mac_data))"

text \<open>
  \<^verbatim>\<open>ECCx.ecies_decrypt\<close> returns, beside its result, the calls of the library it
  has made, in their order: what was computed before an exception is part of
  what the function does.
\<close>

datatype call = CallECDH | CallKDF | CallSHA256 | CallHMAC | CallCipher

definition ecies_decrypt :: "lib \<Rightarrow> ecc \<Rightarrow> bytes \<Rightarrow> bytes \<Rightarrow> call list \<times> (error + bytes)" where
  "ecies_decrypt L self data shared_mac_data =
     (if take 1 data \<noteq> [4] then ([], Inl (ECIESDecryptionError ''wrong ecies header''))
      else let shared = take 64 (drop 1 data)
      in case raw_get_ecdh_key L self (take 32 shared) (drop 32 shared) of
        Inl e \<Rightarrow> ([CallECDH], Inl e)
      | Inr key_material \<Rightarrow>
          if length key_material \<noteq> 32 then ([CallECDH], Inl AssertionError)
          else case eciesKDF (sha256 L) key_material 32 of
            Inl e \<Rightarrow> ([CallECDH, CallKDF], Inl e)
          | Inr key \<Rightarrow>
              if length key \<noteq> 32 then ([CallECDH, CallKDF], Inl AssertionError)
              else let key_enc = take 16 key;
                       key_mac = sha256 L (drop 16 key)
                   in if length key_mac \<noteq> 32
                      then ([CallECDH, CallKDF, CallSHA256], Inl AssertionError)
              else let tag = drop (length data - 32) data
                   in if length tag \<noteq> 32
                      then ([CallECDH, CallKDF, CallSHA256], Inl AssertionError)
              else if hmac_sha256 L key_mac
                        (drop (1 + 64) (take (length data - 32) data) @ shared_mac_data) \<noteq> tag
                   then ([CallECDH, CallKDF, CallSHA256, CallHMAC],
                         Inl (ECIESDecryptionError ''Fail to verify data''))
              else let blocksize = get_blocksize L ecies_ciphername;
                       iv = take blocksize (drop (1 + 64) data)
                   in if length iv \<noteq> 16
                      then ([CallECDH, CallKDF, CallSHA256, CallHMAC], Inl AssertionError)
              else let ciphertext = drop (1 + 64 + blocksize) (take (length data - 32) data)
                   in if 1 + length shared + length iv + length ciphertext + length tag
                           \<noteq> length data
                      then ([CallECDH, CallKDF, CallSHA256, CallHMAC], Inl AssertionError)
                      else ([CallECDH, CallKDF, CallSHA256, CallHMAC, CallCipher],
                            Inr (Cipher_ciphering L key_enc iv 0 ecies_ciphername ciphertext)))"

section \<open>ECDSA\<close>

text \<open>
  \<open>from_signature_and_message L signature message\<close> is the uncompressed format of
  the key that \<^verbatim>\<open>PublicKey.from_signature_and_message\<close> recovers, or the exception
  it raises.
\<close>

definition ecdsa_verify :: "lib \<Rightarrow> bytes \<Rightarrow> bytes \<Rightarrow> bytes \<Rightarrow> error + bool" where
  "ecdsa_verify L pubkey signature message =
     (if length pubkey \<noteq> 64 then Inl AssertionError
      else case from_signature_and_message L signature message of
             Inl e \<Rightarrow> Inl e
           | Inr pk \<Rightarrow> Inr (pk = [4] @ pubkey))"

definition ecdsa_recover :: "lib \<Rightarrow> bytes \<Rightarrow> bytes \<Rightarrow> error + bytes" where
  "ecdsa_recover L message signature =
     (if length signature \<noteq> 65 then Inl AssertionError
      else case from_signature_and_message L signature message of
             Inl e \<Rightarrow> Inl e
           | Inr pk \<Rightarrow> Inr (drop 1 pk))"

section \<open>The contracts of the library\<close>

text \<open>
  What the module expects of the hashes, of the cipher and of the random
  initialisation vector: digests and tags of 32 bytes, a cipher that keeps
  the length of its input and whose decryption (\<open>do = 0\<close>) undoes its
  encryption (\<open>do = 1\<close>), a block size of 16 in the table of ciphers, an
  initialisation vector of 16 bytes.
\<close>

definition lib_ok :: "lib \<Rightarrow> bool" where
  "lib_ok L \<longleftrightarrow>
     (\<forall>x. length (sha256 L x) = 32)
     \<and> (\<forall>k m. length (hmac_sha256 L k m) = 32)
     \<and> (\<forall>k iv d x. length (Cipher_ciphering L k iv d ecies_ciphername x) = length x)
     \<and> (\<forall>k iv x. Cipher_ciphering L k iv 0 ecies_ciphername
                    (Cipher_ciphering L k iv 1 ecies_ciphername x) = x)
     \<and> get_blocksize L ecies_ciphername = 16
     \<and> length (gen_IV L ecies_ciphername) = 16"

section \<open>A small instance of the library\<close>

text \<open>
  The theorems below hold for every library that keeps its contracts (digest
  lengths, a cipher that keeps the length and inverts itself, a key agreement
  on which both sides agree). To apply them to concrete inputs, here is an
  instance simple enough to compute with: a checksum for the hashes, a shift
  of every byte for the cipher, a pointwise product for the key agreement. Its
  key generator returns a 31-byte private key at its first call and 32-byte
  keys afterwards.
\<close>

definition test_digest :: "bytes \<Rightarrow> bytes" where
  "test_digest x = replicate 32 (sum_list x + of_nat (length x))"

definition test_hmac :: "bytes \<Rightarrow> bytes \<Rightarrow> bytes" where
  "test_hmac k m = test_digest (k @ m)"

definition test_cipher :: "bytes \<Rightarrow> bytes \<Rightarrow> nat \<Rightarrow> string \<Rightarrow> bytes \<Rightarrow> bytes" where
  "test_cipher k iv do name data =
     (if do = 1 then map (\<lambda>b. b + sum_list (k @ iv)) data
      else map (\<lambda>b. b - sum_list (k @ iv)) data)"

definition test_ecdh :: "ecc \<Rightarrow> bytes \<Rightarrow> bytes \<Rightarrow> error + bytes" where
  "test_ecdh self px py =
     (case privkey self of
        None \<Rightarrow> Inl (PyException ''no private key'')
      | Some a \<Rightarrow>
          if length a = 32 \<and> length px = 32 \<and> length py = 32
          then Inr (map2 (*) a px)
          else Inl (PyException ''ECDH failed''))"

definition test_keypair :: "bytes \<Rightarrow> ecc" where
  "test_keypair a =
     \<lparr>privkey = Some a, pubkey_x = map (\<lambda>b. 3 * b) a, pubkey_y = map (\<lambda>b. 5 * b) a\<rparr>"

definition test_ECC_init ::
  "nat \<Rightarrow> bytes option \<Rightarrow> bytes option \<Rightarrow> bytes option \<Rightarrow> error + ecc" where
  "test_ECC_init n px py priv =
     (case px of
        Some x \<Rightarrow>
          (case py of
             Some y \<Rightarrow> Inr \<lparr>privkey = priv, pubkey_x = x, pubkey_y = y\<rparr>
           | None \<Rightarrow> Inr (test_keypair (replicate (if n = 0 then 31 else 32) (of_nat n + 1))))
      | None \<Rightarrow> Inr (test_keypair (replicate (if n = 0 then 31 else 32) (of_nat n + 1))))"

definition test_privkey_format :: "bytes \<Rightarrow> error + string" where
  "test_privkey_format priv =
     (if length priv = 32 then Inr ''bin''
      else Inl (PyException ''WIF does not represent privkey''))"

definition test_recover :: "bytes \<Rightarrow> bytes \<Rightarrow> error + bytes" where
  "test_recover signature message =
     (if length signature \<noteq> 65
      then Inl (PyException ''Serialized signature must be 65 bytes long.'')
      else Inr ([4] @ take 64 signature))"

definition test_lib :: lib where
  "test_lib =
     \<lparr>sha256 = test_digest,
      hmac_sha256 = test_hmac,
      Cipher_ciphering = test_cipher,
      get_blocksize = (\<lambda>name. 16),
      gen_IV = (\<lambda>name. replicate 16 1),
      raw_get_ecdh_key = test_ecdh,
      pyelliptic_ECC_init = test_ECC_init,
      get_privkey_format = test_privkey_format,
      bitcoin_privtopub = (\<lambda>priv. Inr (raw_pubkey (test_keypair priv))),
      from_signature_and_message = test_recover\<rparr>"

text \<open>The same library with a key generator that only ever returns 31-byte keys.\<close>

definition short_key_lib :: lib where
  "short_key_lib =
     test_lib\<lparr>pyelliptic_ECC_init :=
       (\<lambda>n px py priv. Inr (test_keypair (replicate 31 1)))\<rparr>"

definition test_recipient :: ecc where
  "test_recipient = test_keypair (replicate 32 7)"

definition hello :: bytes where
  "hello = [104, 101, 108, 108, 111]"

text \<open>
  The message that \<open>ecies_encrypt\<close> makes of \<open>hello\<close> for \<open>test_recipient\<close>
  in this library (ephemeral public key, initialisation vector, ciphertext,
  tag), and the same message with its tag overwritten.
\<close>

definition test_message :: bytes where
  "test_message =
     [4] @ replicate 32 6 @ replicate 32 10 @ replicate 16 1
       @ [200, 197, 204, 204, 207] @ replicate 32 57"

definition tampered_message :: bytes where
  "tampered_message =
     [4] @ replicate 32 6 @ replicate 32 10 @ replicate 16 1
       @ [200, 197, 204, 204, 207] @ replicate 32 0"

section \<open>The signature codec: encoding and decoding\<close>

lemma bitcoin_decode_from_append:
  "bitcoin_decode_from acc (xs @ ys) = bitcoin_decode_from (bitcoin_decode_from acc xs) ys"
  by (induction xs arbitrary: acc) simp_all

lemma bitcoin_decode_from_zeros:
  "bitcoin_decode_from 0 (replicate k 0 @ xs) = bitcoin_decode_from 0 xs"
  by (induction k) simp_all

lemma uint_byte_mod: "uint (word_of_int (v mod 256) :: byte) = v mod 256"
  by (simp add: uint_word_of_int take_bit_eq_mod)

lemma bitcoin_decode_encode:
  "0 \<le> r \<Longrightarrow> bitcoin_decode_from 0 (bitcoin_encode r) = r"
proof (induction r rule: bitcoin_encode.induct)
  case (1 val)
  show ?case
  proof (cases "0 < val")
    case True
    with "1.IH" have "bitcoin_decode_from 0 (bitcoin_encode (val div 256)) = val div 256"
      by simp
    with True show ?thesis
      by (simp add: bitcoin_encode.simps [of val] bitcoin_decode_from_append uint_byte_mod)
  next
    case False
    with "1.prems" have "val = 0" by simp
    then show ?thesis
      by (simp add: bitcoin_encode.simps [of 0])
  qed
qed

lemma length_bitcoin_encode:
  "val < 256 ^ n \<Longrightarrow> length (bitcoin_encode val) \<le> n"
proof (induction n arbitrary: val)
  case 0
  then show ?case by (simp add: bitcoin_encode.simps [of val])
next
  case (Suc n)
  show ?case
  proof (cases "0 < val")
    case True
    from Suc.prems have "val div 256 < 256 ^ n"
      by (simp add: div_less_iff_less_mult mult.commute)
    then have "length (bitcoin_encode (val div 256)) \<le> n" by (rule Suc.IH)
    with True show ?thesis by (simp add: bitcoin_encode.simps [of val])
  next
    case False
    then show ?thesis by (simp add: bitcoin_encode.simps [of val])
  qed
qed

lemma length_zero_padded:
  "r < 2 ^ 256 \<Longrightarrow>
   length (replicate (32 - length (bitcoin_encode r)) 0 @ bitcoin_encode r) = 32"
proof -
  assume "r < 2 ^ 256"
  then have "r < 256 ^ 32" by simp
  then have "length (bitcoin_encode r) \<le> 32" by (rule length_bitcoin_encode)
  then show ?thesis by simp
qed

lemma bitcoin_decode_zero_padded:
  "0 \<le> r \<Longrightarrow> bitcoin_decode (replicate k 0 @ bitcoin_encode r) = r"
  by (simp add: bitcoin_decode_def bitcoin_decode_from_zeros bitcoin_decode_encode)

text \<open>
  \<open>decode_sig\<close> is the inverse of the layout that \<^verbatim>\<open>_encode_sig\<close> is written for:
  from the 65 bytes made of \<open>r\<close> and \<open>s\<close>, each padded with zero bytes to 32
  bytes, and the byte \<open>v - 27\<close>, it returns \<open>(v, r, s)\<close>.
\<close>

lemma decode_sig_of_layout:
  assumes v: "v = 27 \<or> v = 28"
    and r: "0 \<le> r" "r < 2 ^ 256"
    and s: "0 \<le> s" "s < 2 ^ 256"
  shows "decode_sig
           ((replicate (32 - length (bitcoin_encode r)) 0 @ bitcoin_encode r)
             @ (replicate (32 - length (bitcoin_encode s)) 0 @ bitcoin_encode s)
             @ [word_of_int (v - 27)]) = Inr (v, r, s)"
proof -
  let ?rb = "replicate (32 - length (bitcoin_encode r)) 0 @ bitcoin_encode r"
  let ?sb = "replicate (32 - length (bitcoin_encode s)) 0 @ bitcoin_encode s"
  let ?sig = "?rb @ ?sb @ [word_of_int (v - 27) :: byte]"
  from r(2) have lr: "length ?rb = 32" by (rule length_zero_padded)
  from s(2) have ls: "length ?sb = 32" by (rule length_zero_padded)
  from lr ls have len: "length ?sig = 65" by simp
  from lr ls have nth: "?sig ! 64 = word_of_int (v - 27)"
    by (simp add: nth_append)
  from v have vv: "uint (word_of_int (v - 27) :: byte) + 27 = v" by auto
  from lr have t1: "take 32 ?sig = ?rb" by simp
  from lr ls have t2: "take 32 (drop 32 ?sig) = ?sb" by simp
  from r(1) have d1: "bitcoin_decode ?rb = r" by (rule bitcoin_decode_zero_padded)
  from s(1) have d2: "bitcoin_decode ?sb = s" by (rule bitcoin_decode_zero_padded)
  show ?thesis
    unfolding decode_sig_def using len nth vv t1 t2 d1 d2 by simp
qed

lemma lzpad32_bytes: "lzpad32 (PyBytes x) = Inl TypeError"
  by (simp add: lzpad32_def)

lemma decode_sig_indicator_5: "decode_sig (replicate 64 0 @ [5]) = Inr (32, 0, 0)"
  by (simp add: decode_sig_def bitcoin_decode_def nth_append
      bitcoin_decode_from_zeros [of _ "[]", simplified])

lemma decode_sig_indicator_27: "decode_sig (replicate 64 0 @ [27]) = Inr (54, 0, 0)"
  by (simp add: decode_sig_def bitcoin_decode_def nth_append
      bitcoin_decode_from_zeros [of _ "[]", simplified])

text \<open>
  Claim C7, at the inputs where the code leaves it. The claim says that
  \<^verbatim>\<open>_encode_sig\<close> returns 65 bytes for \<open>v\<close> in \<open>{27, 28}\<close> and that \<^verbatim>\<open>_decode_sig\<close>
  returns \<open>(v, r, s)\<close> from them. For every such \<open>v\<close>, and every \<open>r\<close> and \<open>s\<close>,
  the code raises \<^verbatim>\<open>TypeError\<close>: \<^verbatim>\<open>lzpad32\<close> adds the byte string of the library to a
  text string of zero characters. Nothing is encoded, so there is nothing to
  decode.
\<close>

theorem encode_sig_raises_TypeError:
  assumes "v = 27 \<or> v = 28"
  shows "encode_sig v r s = Inl TypeError"
  using assms by (auto simp: encode_sig_def lzpad32_bytes)

theorem encode_sig_raises_TypeError_witness:
  "((28::int) = 27 \<or> (28::int) = 28) \<and> encode_sig 28 258 0 = Inl TypeError"
  using encode_sig_raises_TypeError [of 28 258 0] by simp

text \<open>
  Claim C6, as the code has it. The claim says that decoding a signature
  whose byte at offset 64 is not 27 or 28 fails. \<open>decode_sig\<close> checks nothing:
  for any 65 bytes it returns the byte at offset 64 plus 27 as \<open>v\<close>, so the
  \<open>v\<close> it returns is 27 or 28 exactly when the byte is 0 or 1.
\<close>

theorem decode_sig_indicator_unchecked:
  assumes "length sig = 65"
  shows "(\<exists>r s. decode_sig sig = Inr (uint (sig ! 64) + 27, r, s))
    \<and> decode_sig sig = Inr (uint (sig ! 64) + 27, bitcoin_decode (take 32 sig),
         bitcoin_decode (take 32 (drop 32 sig)))
    \<and> ((uint (sig ! 64) + 27 = 27 \<or> uint (sig ! 64) + 27 = 28)
         \<longleftrightarrow> (sig ! 64 = 0 \<or> sig ! 64 = 1))"
proof -
  from assms have d: "decode_sig sig = Inr (uint (sig ! 64) + 27, bitcoin_decode (take 32 sig),
         bitcoin_decode (take 32 (drop 32 sig)))"
    by (simp add: decode_sig_def)
  have "uint (sig ! 64) = 0 \<longleftrightarrow> sig ! 64 = 0"
    by (simp add: uint_0_iff)
  moreover have "uint (sig ! 64) = 1 \<longleftrightarrow> sig ! 64 = 1"
    by (simp add: uint_1_eq word_uint_eq_iff)
  ultimately have "(uint (sig ! 64) + 27 = 27 \<or> uint (sig ! 64) + 27 = 28)
         \<longleftrightarrow> (sig ! 64 = 0 \<or> sig ! 64 = 1)"
    by simp
  with d show ?thesis by simp
qed

theorem decode_sig_indicator_unchecked_witness:
  "length (replicate 64 (9 :: byte) @ [200]) = 65
   \<and> (\<exists>r s. decode_sig (replicate 64 9 @ [200]) = Inr (227, r, s))"
proof -
  have len: "length (replicate 64 (9 :: byte) @ [200]) = 65" by simp
  have nth: "(replicate 64 (9 :: byte) @ [200]) ! 64 = 200"
    by (simp add: nth_append)
  from decode_sig_indicator_unchecked [OF len] nth
  have "\<exists>r s. decode_sig (replicate 64 9 @ [200]) = Inr (227, r, s)"
    by simp
  with len show ?thesis by simp
qed

theorem sig_indicator_counterexample:
  "decode_sig (replicate 64 0 @ [5]) = Inr (32, 0, 0)
   \<and> decode_sig (replicate 64 0 @ [27]) = Inr (54, 0, 0)"
  using decode_sig_indicator_5 decode_sig_indicator_27 by simp

section \<open>The key derivation function\<close>

lemma struct_pack_I_1: "struct_pack_I 1 = Inr (be32 1)"
  by (simp add: struct_pack_I_def)

lemma struct_pack_I_2: "struct_pack_I 2 = Inr (be32 2)"
  by (simp add: struct_pack_I_def)

lemma kdf_loop_stop: "reps < counter \<Longrightarrow> kdf_loop H km reps counter key = Inr key"
  by (simp add: kdf_loop.simps [of H km reps counter key])

lemma kdf_loop_one_block: "kdf_loop H km 0 0 [] = Inr (H (be32 1 @ km))"
  by (simp add: kdf_loop.simps [of H km 0 0 "[]"] struct_pack_I_1 kdf_loop_stop)

lemma kdf_loop_two_blocks:
  "kdf_loop H km 1 0 [] = Inr (H (be32 1 @ km) @ H (be32 2 @ km))"
  by (simp add: kdf_loop.simps [of H km 1 0 "[]"] kdf_loop.simps [of H km 1 1]
      struct_pack_I_1 struct_pack_I_2 kdf_loop_stop)

lemma eciesKDF_32: "eciesKDF H km 32 = Inr (take 32 (H (be32 1 @ km)))"
  by (simp add: eciesKDF_def kdf_loop_one_block py_take_def)

lemma eciesKDF_33: "eciesKDF H km 33 = Inr (take 33 (H (be32 1 @ km)))"
  by (simp add: eciesKDF_def kdf_loop_one_block py_take_def)

lemma eciesKDF_57:
  "eciesKDF H km 57 = Inr (take 57 (H (be32 1 @ km) @ H (be32 2 @ km)))"
  by (simp add: eciesKDF_def kdf_loop_two_blocks py_take_def)

text \<open>
  The loop hashes the counters \<open>counter + 1\<close> to \<open>reps + 1\<close>, in this order, and
  appends the digests to the key.
\<close>

lemma kdf_loop_blocks:
  "0 \<le> counter \<Longrightarrow> reps + 1 < 2 ^ 32 \<Longrightarrow>
   kdf_loop H km reps counter key =
     Inr (key @ concat (map (\<lambda>i. H (be32 i @ km)) [counter + 1..reps + 1]))"
proof (induction H km reps counter key rule: kdf_loop.induct)
  case (1 H km reps counter key)
  show ?case
  proof (cases "counter \<le> reps")
    case True
    with "1.prems" have pk: "struct_pack_I (counter + 1) = Inr (be32 (counter + 1))"
      by (simp add: struct_pack_I_def)
    from True have up: "[counter + 1..reps + 1] = (counter + 1) # [counter + 1 + 1..reps + 1]"
      by (simp add: upto_rec1)
    from "1.IH" [OF True pk] "1.prems"
    have "kdf_loop H km reps (counter + 1) (key @ H (be32 (counter + 1) @ km @ [])) =
      Inr ((key @ H (be32 (counter + 1) @ km @ [])) @
        concat (map (\<lambda>i. H (be32 i @ km)) [counter + 1 + 1..reps + 1]))"
      by simp
    with True pk up show ?thesis
      by (simp add: kdf_loop.simps [of H km reps counter key])
  next
    case False
    then show ?thesis
      by (simp add: kdf_loop.simps [of H km reps counter key])
  qed
qed

lemma length_concat_blocks:
  "(\<forall>x. length (H x) = 32) \<Longrightarrow> length (concat (map (\<lambda>i. H (f i)) xs)) = 32 * length xs"
  by (induction xs) simp_all

lemma eciesKDF_blocks:
  assumes "0 \<le> key_len" "key_len < 2 ^ 32"
  shows "eciesKDF H km key_len =
    Inr (take (nat key_len) (concat (map (\<lambda>i. H (be32 i @ km)) [1..(key_len + 7) div 64 + 1])))"
proof -
  have "(key_len + 7) * 8 div (64 * 8) = (key_len + 7) div 64" by simp
  moreover from assms have "(key_len + 7) div 64 + 1 < 2 ^ 32" by simp
  ultimately show ?thesis
    using assms by (simp add: eciesKDF_def kdf_loop_blocks py_take_def)
qed

text \<open>
  With digests of 32 bytes the key has \<open>key_len\<close> bytes only where
  \<open>key_len \<le> 32 * ((key_len + 7) div 64 + 1)\<close>: the number of blocks comes from
  the block size 64 of the hash, not from the 32 bytes of a digest.
\<close>

lemma length_eciesKDF:
  assumes "0 \<le> key_len" "key_len < 2 ^ 32" "\<forall>x. length (H x) = 32"
  shows "\<exists>key. eciesKDF H km key_len = Inr key \<and>
    int (length key) = min key_len (32 * ((key_len + 7) div 64 + 1))"
proof -
  let ?blocks = "concat (map (\<lambda>i. H (be32 i @ km)) [1..(key_len + 7) div 64 + 1])"
  from assms(1) have reps: "0 \<le> (key_len + 7) div 64" by simp
  then have "length [1..(key_len + 7) div 64 + 1] = nat ((key_len + 7) div 64 + 1)"
    by simp
  then have "length ?blocks = 32 * nat ((key_len + 7) div 64 + 1)"
    by (simp add: length_concat_blocks [OF assms(3)])
  with reps have "int (length ?blocks) = 32 * ((key_len + 7) div 64 + 1)"
    by simp
  with assms(1) have "int (length (take (nat key_len) ?blocks)) =
      min key_len (32 * ((key_len + 7) div 64 + 1))"
    by simp
  with assms(1,2) show ?thesis
    by (simp add: eciesKDF_blocks)
qed

lemma test_digest_length: "length (test_digest x) = 32"
  by (simp add: test_digest_def)

text \<open>
  Claim C2, at the input where the code leaves it. The claim promises
  \<open>outputLen\<close> bytes for every positive \<open>outputLen\<close>. For \<open>outputLen = 33\<close> the
  code computes \<open>reps = 0\<close>, hashes the counter 1 only, and returns that one
  digest: 32 bytes where the digest has 32.
\<close>

theorem eciesKDF_33_returns_32_bytes:
  assumes "length (H (be32 1 @ secret)) = 32"
  shows "\<exists>key. eciesKDF H secret 33 = Inr key \<and> key = H (be32 1 @ secret) \<and> length key = 32"
  using assms by (simp add: eciesKDF_33)

theorem eciesKDF_33_returns_32_bytes_witness:
  "length (test_digest (be32 1 @ [1, 2, 3])) = 32
   \<and> (\<exists>key. eciesKDF test_digest [1, 2, 3] 33 = Inr key
         \<and> key = test_digest (be32 1 @ [1, 2, 3]) \<and> length key = 32)"
  using eciesKDF_33_returns_32_bytes [of test_digest "[1, 2, 3]"] test_digest_length
  by simp

text \<open>
  Claim C9, at the input where the code leaves it. The claim says that the
  first \<open>m\<close> bytes of the key of length \<open>n\<close> are the key of length \<open>m\<close>, for
  \<open>m < n\<close>. For \<open>n = 57\<close> the code hashes two blocks, so the first 33 bytes of
  that key are 33 bytes; for \<open>m = 33\<close> it hashes one block and returns 32 bytes.
\<close>

theorem eciesKDF_prefix_57_33:
  assumes "length (H (be32 1 @ secret)) = 32" and "length (H (be32 2 @ secret)) = 32"
  shows "\<exists>k57 k33. eciesKDF H secret 57 = Inr k57 \<and> eciesKDF H secret 33 = Inr k33
           \<and> length k57 = 57 \<and> length (take 33 k57) = 33 \<and> length k33 = 32
           \<and> take 33 k57 \<noteq> k33"
proof -
  let ?k57 = "take 57 (H (be32 1 @ secret) @ H (be32 2 @ secret))"
  let ?k33 = "take 33 (H (be32 1 @ secret))"
  from assms have l57: "length ?k57 = 57" by simp
  then have l: "length (take 33 ?k57) = 33" by simp
  from assms have l33: "length ?k33 = 32" by simp
  from l l33 have "take 33 ?k57 \<noteq> ?k33" by auto
  with l57 l l33 show ?thesis
    by (simp only: eciesKDF_57 eciesKDF_33) blast
qed

theorem eciesKDF_prefix_57_33_witness:
  "length (test_digest (be32 1 @ [1, 2, 3])) = 32 \<and> length (test_digest (be32 2 @ [1, 2, 3])) = 32
   \<and> (\<exists>k57 k33. eciesKDF test_digest [1, 2, 3] 57 = Inr k57
         \<and> eciesKDF test_digest [1, 2, 3] 33 = Inr k33
         \<and> length k57 = 57 \<and> length (take 33 k57) = 33 \<and> length k33 = 32
         \<and> take 33 k57 \<noteq> k33)"
  using eciesKDF_prefix_57_33 [of test_digest "[1, 2, 3]"] test_digest_length
  by simp

section \<open>Key generation\<close>

text \<open>
  A fresh key is \<open>ECCx_init L None None\<close>: no public and no private key are
  given, so every pass of the loop asks the library for a new key.
\<close>

lemma truthy_None: "\<not> truthy None"
  by (simp add: truthy_def opt_bytes_def)

lemma fresh_body_Continue:
  "pyelliptic_ECC_init L n None None None = Inr self \<Longrightarrow> key_bad L self \<Longrightarrow>
   ECCx_init_body L None None None None n = Continue"
  by (auto simp: ECCx_init_body_def key_bad_def truthy_None)

lemma fresh_body_Break:
  "pyelliptic_ECC_init L n None None None = Inr self \<Longrightarrow> key_ok L self \<Longrightarrow>
   ECCx_init_body L None None None None n = Break self"
  by (auto simp: ECCx_init_body_def key_ok_def)

lemma body_Break_key_ok:
  "ECCx_init_body L pub_arg priv_arg px py n = Break self \<Longrightarrow> key_ok L self"
  by (auto simp: ECCx_init_body_def key_ok_def split: sum.splits if_splits)

text \<open>
  The loop, pass by pass: passes that go round again change nothing but the
  number of the pass, and a loop that returns has reached a pass that does not
  go round again; the key it returns is the key of a \<^verbatim>\<open>break\<close>.
\<close>

lemma loop_skips:
  "(\<forall>i<k. ECCx_init_body L pub_arg priv_arg px py (n + i) = Continue) \<Longrightarrow>
   ECCx_init_loop L pub_arg priv_arg px py n = ECCx_init_loop L pub_arg priv_arg px py (n + k)"
proof (induction k arbitrary: n)
  case 0
  then show ?case by simp
next
  case (Suc k)
  from Suc.prems have first: "ECCx_init_body L pub_arg priv_arg px py n = Continue"
    by (metis add.right_neutral zero_less_Suc)
  from Suc.prems have "\<forall>i<k. ECCx_init_body L pub_arg priv_arg px py (Suc n + i) = Continue"
    by (metis Suc_less_eq add_Suc_shift)
  then have "ECCx_init_loop L pub_arg priv_arg px py (Suc n) =
      ECCx_init_loop L pub_arg priv_arg px py (Suc n + k)"
    by (rule Suc.IH)
  with first show ?case
    by (simp add: ECCx_init_loop.simps [of L pub_arg priv_arg px py n])
qed

lemma loop_returns_leaves:
  assumes ret: "ECCx_init_loop L pub_arg priv_arg px py n = Some r"
  shows "\<exists>i. ECCx_init_body L pub_arg priv_arg px py (n + i) \<noteq> Continue
    \<and> (\<forall>self. r = Inr self \<longrightarrow> ECCx_init_body L pub_arg priv_arg px py (n + i) = Break self)"
proof (rule ECCx_init_loop.raw_induct
    [where P = "\<lambda>L pub_arg priv_arg px py n r.
       \<exists>i. ECCx_init_body L pub_arg priv_arg px py (n + i) \<noteq> Continue
        \<and> (\<forall>self. r = Inr self \<longrightarrow> ECCx_init_body L pub_arg priv_arg px py (n + i) = Break self)",
     OF _ ret])
  fix f L pub_arg priv_arg px py n r
  assume IH: "\<And>L pub_arg priv_arg px py n r. f L pub_arg priv_arg px py n = Some r \<Longrightarrow>
      \<exists>i. ECCx_init_body L pub_arg priv_arg px py (n + i) \<noteq> Continue
        \<and> (\<forall>self. r = Inr self \<longrightarrow> ECCx_init_body L pub_arg priv_arg px py (n + i) = Break self)"
    and eq: "(case ECCx_init_body L pub_arg priv_arg px py n of
        Continue \<Rightarrow> f L pub_arg priv_arg px py (Suc n)
      | Break self \<Rightarrow> Some (Inr self)
      | Raise e \<Rightarrow> Some (Inl e)) = Some r"
  show "\<exists>i. ECCx_init_body L pub_arg priv_arg px py (n + i) \<noteq> Continue
        \<and> (\<forall>self. r = Inr self \<longrightarrow> ECCx_init_body L pub_arg priv_arg px py (n + i) = Break self)"
  proof (cases "ECCx_init_body L pub_arg priv_arg px py n")
    case Continue
    with eq have "f L pub_arg priv_arg px py (Suc n) = Some r" by simp
    then have "\<exists>i. ECCx_init_body L pub_arg priv_arg px py (Suc n + i) \<noteq> Continue
        \<and> (\<forall>self. r = Inr self \<longrightarrow> ECCx_init_body L pub_arg priv_arg px py (Suc n + i) = Break self)"
      by (rule IH)
    then obtain i where "ECCx_init_body L pub_arg priv_arg px py (Suc n + i) \<noteq> Continue
        \<and> (\<forall>self. r = Inr self \<longrightarrow> ECCx_init_body L pub_arg priv_arg px py (Suc n + i) = Break self)"
      by (elim exE)
    then have "ECCx_init_body L pub_arg priv_arg px py (n + Suc i) \<noteq> Continue
        \<and> (\<forall>self. r = Inr self \<longrightarrow> ECCx_init_body L pub_arg priv_arg px py (n + Suc i) = Break self)"
      by simp
    then show ?thesis by blast
  next
    case (Break self)
    with eq have "ECCx_init_body L pub_arg priv_arg px py (n + 0) \<noteq> Continue
        \<and> (\<forall>self. r = Inr self \<longrightarrow> ECCx_init_body L pub_arg priv_arg px py (n + 0) = Break self)"
      by auto
    then show ?thesis by blast
  next
    case (Raise e)
    with eq have "ECCx_init_body L pub_arg priv_arg px py (n + 0) \<noteq> Continue
        \<and> (\<forall>self. r = Inr self \<longrightarrow> ECCx_init_body L pub_arg priv_arg px py (n + 0) = Break self)"
      by auto
    then show ?thesis by blast
  qed
qed

lemma loop_diverges:
  assumes "\<forall>i. ECCx_init_body L pub_arg priv_arg px py i = Continue"
  shows "ECCx_init_loop L pub_arg priv_arg px py n = None"
proof (cases "ECCx_init_loop L pub_arg priv_arg px py n")
  case None
  then show ?thesis .
next
  case (Some r)
  then obtain i where "ECCx_init_body L pub_arg priv_arg px py (n + i) \<noteq> Continue"
    using loop_returns_leaves by blast
  with assms show ?thesis by simp
qed

lemma ECCx_init_fresh:
  "ECCx_init L None None =
     (case ECCx_init_loop L None None None None 0 of
        None \<Rightarrow> None
      | Some (Inl e) \<Rightarrow> Some (Inl e)
      | Some (Inr self) \<Rightarrow>
          if length (raw_pubkey self) \<noteq> 64 then Some (Inl AssertionError) else Some (Inr self))"
  by (simp add: ECCx_init_def truthy_None)

lemma ECCx_init_pubkey_length:
  "ECCx_init L pub_arg priv_arg = Some (Inr self) \<Longrightarrow> length (raw_pubkey self) = 64"
  by (auto simp: ECCx_init_def Let_def split: if_splits sum.splits option.splits)

lemma ECCx_init_fresh_returns:
  assumes bad: "\<forall>i<k. \<exists>s. pyelliptic_ECC_init L i None None None = Inr s \<and> key_bad L s"
    and gen: "pyelliptic_ECC_init L k None None None = Inr self"
    and ok: "key_ok L self"
  shows "ECCx_init L None None = Some (Inr self)"
proof -
  from bad have "\<forall>i<k. ECCx_init_body L None None None None (0 + i) = Continue"
    by (auto intro: fresh_body_Continue)
  then have "ECCx_init_loop L None None None None 0 = ECCx_init_loop L None None None None (0 + k)"
    by (rule loop_skips)
  moreover from gen ok have "ECCx_init_body L None None None None k = Break self"
    by (rule fresh_body_Break)
  ultimately have "ECCx_init_loop L None None None None 0 = Some (Inr self)"
    by (simp add: ECCx_init_loop.simps [of L None None None None k])
  moreover from ok have "length (raw_pubkey self) = 64"
    by (simp add: key_ok_def)
  ultimately show ?thesis
    by (simp add: ECCx_init_fresh)
qed

lemma ECCx_init_fresh_diverges:
  assumes bad: "\<forall>i. \<exists>s. pyelliptic_ECC_init L i None None None = Inr s \<and> key_bad L s"
  shows "ECCx_init L None None = None"
proof -
  from bad have "\<forall>i. ECCx_init_body L None None None None i = Continue"
    by (auto intro: fresh_body_Continue)
  then have "ECCx_init_loop L None None None None 0 = None"
    by (rule loop_diverges)
  then show ?thesis
    by (simp add: ECCx_init_fresh)
qed

lemma ECCx_init_returns_key_ok:
  assumes "ECCx_init L pub_arg priv_arg = Some (Inr self)"
  shows "key_ok L self"
proof -
  from assms obtain pub' px py where "ECCx_init_loop L pub' priv_arg px py 0 = Some (Inr self)"
    by (auto simp: ECCx_init_def Let_def split: if_splits sum.splits option.splits)
  then obtain i where "ECCx_init_body L pub' priv_arg px py (0 + i) = Break self"
    using loop_returns_leaves by blast
  then show ?thesis by (rule body_Break_key_ok)
qed

lemma test_first_key_bad:
  "\<forall>i<1. \<exists>s. pyelliptic_ECC_init test_lib i None None None = Inr s \<and> key_bad test_lib s"
  by (simp add: test_lib_def test_ECC_init_def key_bad_def test_keypair_def raw_privkey_def
      truthy_def opt_bytes_def)

lemma test_second_key:
  "pyelliptic_ECC_init test_lib 1 None None None = Inr (test_keypair (replicate 32 2))"
  by (simp add: test_lib_def test_ECC_init_def)

lemma test_second_key_ok: "key_ok test_lib (test_keypair (replicate 32 2))"
  by (simp add: key_ok_def test_lib_def test_keypair_def raw_privkey_def raw_pubkey_def
      truthy_def opt_bytes_def valid_priv_key_def test_privkey_format_def)

lemma test_generation:
  "ECCx_init test_lib None None = Some (Inr (test_keypair (replicate 32 2)))"
  using test_first_key_bad test_second_key test_second_key_ok
  by (rule ECCx_init_fresh_returns)

lemma short_key_lib_bad:
  "\<forall>i. \<exists>s. pyelliptic_ECC_init short_key_lib i None None None = Inr s \<and> key_bad short_key_lib s"
  by (simp add: short_key_lib_def key_bad_def test_keypair_def raw_privkey_def
      truthy_def opt_bytes_def)

text \<open>
  Claim C8, as the code has it. The claim says that generation gives up with
  an error after a bounded number of invalid keys. The loop has no bound:
  after any number \<open>k\<close> of rejected keys it takes the next one, a key it
  returns has passed every test, and when the library never returns a key that
  passes, generation does not return at all: no key and no error.
\<close>

theorem ECCx_init_fresh_unbounded:
  "((\<forall>i<k. \<exists>s. pyelliptic_ECC_init L i None None None = Inr s \<and> key_bad L s)
      \<and> pyelliptic_ECC_init L k None None None = Inr self \<and> key_ok L self
      \<longrightarrow> ECCx_init L None None = Some (Inr self))
   \<and> (ECCx_init L None None = Some (Inr self') \<longrightarrow> key_ok L self')
   \<and> ((\<forall>i. \<exists>s. pyelliptic_ECC_init L i None None None = Inr s \<and> key_bad L s)
      \<longrightarrow> ECCx_init L None None = None)"
proof (intro conjI impI)
  assume "(\<forall>i<k. \<exists>s. pyelliptic_ECC_init L i None None None = Inr s \<and> key_bad L s)
      \<and> pyelliptic_ECC_init L k None None None = Inr self \<and> key_ok L self"
  then have "\<forall>i<k. \<exists>s. pyelliptic_ECC_init L i None None None = Inr s \<and> key_bad L s"
    and "pyelliptic_ECC_init L k None None None = Inr self" and "key_ok L self"
    by simp_all
  then show "ECCx_init L None None = Some (Inr self)"
    by (rule ECCx_init_fresh_returns)
next
  assume "ECCx_init L None None = Some (Inr self')"
  then show "key_ok L self'" by (rule ECCx_init_returns_key_ok)
next
  assume "\<forall>i. \<exists>s. pyelliptic_ECC_init L i None None None = Inr s \<and> key_bad L s"
  then show "ECCx_init L None None = None" by (rule ECCx_init_fresh_diverges)
qed

theorem ECCx_init_fresh_unbounded_witness:
  "ECCx_init test_lib None None = Some (Inr (test_keypair (replicate 32 2)))
   \<and> key_ok test_lib (test_keypair (replicate 32 2))
   \<and> ECCx_init short_key_lib None None = None"
proof -
  note main = ECCx_init_fresh_unbounded
  have bad0: "\<forall>i<1. \<exists>s. pyelliptic_ECC_init test_lib i None None None = Inr s \<and> key_bad test_lib s"
    by (simp add: test_lib_def test_ECC_init_def key_bad_def test_keypair_def raw_privkey_def
        truthy_def opt_bytes_def)
  have gen1: "pyelliptic_ECC_init test_lib 1 None None None = Inr (test_keypair (replicate 32 2))"
    by (simp add: test_lib_def test_ECC_init_def)
  have ok1: "key_ok test_lib (test_keypair (replicate 32 2))"
    by (simp add: key_ok_def test_lib_def test_keypair_def raw_privkey_def raw_pubkey_def
        truthy_def opt_bytes_def valid_priv_key_def test_privkey_format_def)
  from main [of 1 test_lib "test_keypair (replicate 32 2)"] bad0 gen1 ok1
  have r1: "ECCx_init test_lib None None = Some (Inr (test_keypair (replicate 32 2)))"
    by blast
  from main [of 1 test_lib _ "test_keypair (replicate 32 2)"] r1
  have r2: "key_ok test_lib (test_keypair (replicate 32 2))"
    by blast
  from main [of 1 short_key_lib] short_key_lib_bad
  have r3: "ECCx_init short_key_lib None None = None"
    by blast
  from r1 r2 r3 show ?thesis by simp
qed

theorem ECCx_init_fresh_counterexample:
  "ECCx_init short_key_lib None None = None
   \<and> ECCx_init_body short_key_lib None None None None 1000 = Continue"
proof -
  have "ECCx_init short_key_lib None None = None"
    using short_key_lib_bad by (rule ECCx_init_fresh_diverges)
  moreover have "ECCx_init_body short_key_lib None None None None 1000 = Continue"
    using short_key_lib_bad by (blast intro: fresh_body_Continue)
  ultimately show ?thesis by simp
qed

section \<open>ECIES: encryption and decryption\<close>

text \<open>The fields of a message, as \<open>ecies_decrypt\<close> cuts them out.\<close>

lemma message_parts:
  fixes h :: byte and pub iv ct tag :: bytes
  assumes pub: "length pub = 64" and iv: "length iv = 16" and tag: "length tag = 32"
  defines "m \<equiv> ([h] @ pub @ iv @ ct) @ tag"
  shows "take 1 m = [h]"
    and "take 64 (drop 1 m) = pub"
    and "drop (length m - 32) m = tag"
    and "drop (1 + 64) (take (length m - 32) m) = iv @ ct"
    and "take 16 (drop (1 + 64) m) = iv"
    and "drop (1 + 64 + 16) (take (length m - 32) m) = ct"
    and "length m = 113 + length ct"
proof -
  have pre: "take (length m - 32) m = [h] @ pub @ iv @ ct"
    using tag by (simp add: m_def)
  show "take 1 m = [h]" by (simp add: m_def)
  show "take 64 (drop 1 m) = pub" using pub by (simp add: m_def)
  show "drop (length m - 32) m = tag" using tag by (simp add: m_def)
  show "drop (1 + 64) (take (length m - 32) m) = iv @ ct"
    unfolding pre using pub by simp
  show "take 16 (drop (1 + 64) m) = iv" using pub iv by (simp add: m_def)
  show "drop (1 + 64 + 16) (take (length m - 32) m) = ct"
    unfolding pre using pub iv by simp
  show "length m = 113 + length ct" using pub iv tag by (simp add: m_def)
qed

lemma ecies_encrypt_with_decrypt:
  assumes lib: "lib_ok L"
    and pub: "length (raw_pubkey ephem) = 64"
    and agree1: "raw_get_ecdh_key L ephem (take 32 (raw_pubkey K)) (drop 32 (raw_pubkey K)) = Inr z"
    and agree2: "raw_get_ecdh_key L K (take 32 (raw_pubkey ephem)) (drop 32 (raw_pubkey ephem)) = Inr z"
    and z: "length z = 32"
  shows "\<exists>msg. ecies_encrypt_with L ephem p (raw_pubkey K) smd = Inr msg
           \<and> length msg = 113 + length p
           \<and> ecies_decrypt L K msg smd =
               ([CallECDH, CallKDF, CallSHA256, CallHMAC, CallCipher], Inr p)"
proof -
  let ?key = "take 32 (sha256 L (be32 1 @ z))"
  let ?key_enc = "take 16 ?key"
  let ?key_mac = "sha256 L (drop 16 ?key)"
  let ?iv = "gen_IV L ecies_ciphername"
  let ?ct = "Cipher_ciphering L ?key_enc ?iv 1 ecies_ciphername p"
  let ?tag = "hmac_sha256 L ?key_mac (?iv @ ?ct @ smd)"
  let ?msg = "([4] @ raw_pubkey ephem @ ?iv @ ?ct) @ ?tag"
  from lib have sha: "\<And>x. length (sha256 L x) = 32"
    and mac: "\<And>k m. length (hmac_sha256 L k m) = 32"
    and len: "\<And>k iv d x. length (Cipher_ciphering L k iv d ecies_ciphername x) = length x"
    and inv: "\<And>k iv x. Cipher_ciphering L k iv 0 ecies_ciphername
                    (Cipher_ciphering L k iv 1 ecies_ciphername x) = x"
    and bs: "get_blocksize L ecies_ciphername = 16"
    and iv: "length ?iv = 16"
    by (simp_all add: lib_ok_def)
  note parts = message_parts [where h = 4 and pub = "raw_pubkey ephem" and iv = ?iv
      and ct = ?ct and tag = ?tag, OF pub iv mac]
  have lmsg: "length ?msg = 113 + length p"
    using parts(7) len by simp
  have enc: "ecies_encrypt_with L ephem p (raw_pubkey K) smd = Inr ?msg"
    using agree1 z pub sha mac len iv
    by (simp add: ecies_encrypt_with_def Let_def eciesKDF_32 ecies_encrypt_overhead_length_def)
  have "ecies_decrypt L K ?msg smd =
      ([CallECDH, CallKDF, CallSHA256, CallHMAC, CallCipher], Inr p)"
    unfolding ecies_decrypt_def Let_def bs parts(1-6)
    using agree2 z sha mac len iv inv pub lmsg
    by (simp add: eciesKDF_32)
  with enc lmsg show ?thesis by blast
qed

lemma test_lib_ok: "lib_ok test_lib"
  by (simp add: lib_ok_def test_lib_def test_digest_def test_hmac_def test_cipher_def
      comp_def)

lemma test_agree1:
  "raw_get_ecdh_key test_lib (test_keypair (replicate 32 2))
     (take 32 (raw_pubkey test_recipient)) (drop 32 (raw_pubkey test_recipient))
   = Inr (replicate 32 42)"
  by (simp add: test_lib_def test_ecdh_def test_keypair_def test_recipient_def raw_pubkey_def)

lemma test_agree2:
  "raw_get_ecdh_key test_lib test_recipient
     (take 32 (raw_pubkey (test_keypair (replicate 32 2))))
     (drop 32 (raw_pubkey (test_keypair (replicate 32 2))))
   = Inr (replicate 32 42)"
  by (simp add: test_lib_def test_ecdh_def test_keypair_def test_recipient_def raw_pubkey_def)

lemma test_kdf: "eciesKDF (sha256 test_lib) (replicate 32 42) 32 = Inr (replicate 32 101)"
  by (simp add: eciesKDF_32 be32_def test_lib_def test_digest_def sum_list_replicate)

lemma test_encrypt:
  "ecies_encrypt test_lib hello (raw_pubkey test_recipient) [] = Some (Inr test_message)"
proof -
  have "ecies_encrypt_with test_lib (test_keypair (replicate 32 2)) hello
      (raw_pubkey test_recipient) [] = Inr test_message"
    unfolding ecies_encrypt_with_def test_agree1 eciesKDF_32
    by (simp add: Let_def be32_def test_lib_def test_digest_def test_hmac_def test_cipher_def
        test_keypair_def raw_pubkey_def hello_def test_message_def
        ecies_encrypt_overhead_length_def sum_list_replicate)
  then show ?thesis
    by (simp add: ecies_encrypt_def test_generation)
qed

lemma test_decrypt:
  "ecies_decrypt test_lib test_recipient test_message [] =
     ([CallECDH, CallKDF, CallSHA256, CallHMAC, CallCipher], Inr hello)"
  by (simp add: ecies_decrypt_def eciesKDF_32 be32_def
      Let_def test_lib_def test_digest_def test_hmac_def test_cipher_def test_keypair_def
      test_ecdh_def test_recipient_def
      raw_pubkey_def hello_def test_message_def sum_list_replicate)

lemma test_ecdh_of_message:
  "raw_get_ecdh_key test_lib test_recipient (take 32 (take 64 (drop 1 test_message)))
     (drop 32 (take 64 (drop 1 test_message))) = Inr (replicate 32 42)"
  by (simp add: test_lib_def test_ecdh_def test_keypair_def test_recipient_def test_message_def)

lemma test_spec_mac:
  "hmac_sha256 test_lib (sha256 test_lib (drop 16 (replicate 32 101)))
     (take 64 (drop 1 test_message) @ take 16 (drop 65 test_message)
        @ drop 81 (take (length test_message - 32) test_message) @ [])
   \<noteq> drop (length test_message - 32) test_message"
  by (simp add: test_lib_def test_digest_def test_hmac_def test_message_def sum_list_replicate)

text \<open>
  Claim C1. What \<open>ecies_encrypt\<close> makes of a plaintext \<open>p\<close> for the public key
  of \<open>K\<close>, \<open>ecies_decrypt\<close> with \<open>K\<close> turns back into \<open>p\<close>, with the empty
  \<open>shared_mac_data\<close> on both sides and for the empty \<open>p\<close> as for any other.
  Encryption returns: the library keeps its contracts (\<open>lib_ok\<close>), and its key
  generator, after \<open>k\<close> keys that the loop of \<open>ECCx_init\<close> rejects, returns a
  key \<open>ephem\<close> that passes. The two sides of the key agreement agree on a
  secret \<open>z\<close> of 32 bytes: this is what makes \<open>K\<close> a valid key pair.
\<close>

theorem ecies_roundtrip:
  assumes lib: "lib_ok L"
    and bad: "\<forall>i<k. \<exists>s. pyelliptic_ECC_init L i None None None = Inr s \<and> key_bad L s"
    and gen: "pyelliptic_ECC_init L k None None None = Inr ephem"
    and ok: "key_ok L ephem"
    and agree1: "raw_get_ecdh_key L ephem (take 32 (raw_pubkey K)) (drop 32 (raw_pubkey K)) = Inr z"
    and agree2: "raw_get_ecdh_key L K (take 32 (raw_pubkey ephem)) (drop 32 (raw_pubkey ephem)) = Inr z"
    and z: "length z = 32"
  shows "\<exists>msg. ecies_encrypt L p (raw_pubkey K) [] = Some (Inr msg)
           \<and> length msg = 113 + length p
           \<and> snd (ecies_decrypt L K msg []) = Inr p"
proof -
  from bad gen ok have init: "ECCx_init L None None = Some (Inr ephem)"
    by (rule ECCx_init_fresh_returns)
  from ok have "length (raw_pubkey ephem) = 64"
    by (simp add: key_ok_def)
  from ecies_encrypt_with_decrypt [OF lib this agree1 agree2 z, of p "[]"]
  obtain msg where "ecies_encrypt_with L ephem p (raw_pubkey K) [] = Inr msg"
    and "length msg = 113 + length p"
    and "ecies_decrypt L K msg [] = ([CallECDH, CallKDF, CallSHA256, CallHMAC, CallCipher], Inr p)"
    by blast
  with init show ?thesis
    by (simp add: ecies_encrypt_def)
qed

theorem ecies_roundtrip_witness:
  "lib_ok test_lib
   \<and> pyelliptic_ECC_init test_lib 0 None None None = Inr (test_keypair (replicate 31 1))
   \<and> key_bad test_lib (test_keypair (replicate 31 1))
   \<and> pyelliptic_ECC_init test_lib 1 None None None = Inr (test_keypair (replicate 32 2))
   \<and> key_ok test_lib (test_keypair (replicate 32 2))
   \<and> length (replicate 32 (42 :: byte)) = 32
   \<and> (\<exists>msg. ecies_encrypt test_lib hello (raw_pubkey test_recipient) [] = Some (Inr msg)
         \<and> length msg = 113 + length hello
         \<and> snd (ecies_decrypt test_lib test_recipient msg []) = Inr hello)
   \<and> (\<exists>msg. ecies_encrypt test_lib [] (raw_pubkey test_recipient) [] = Some (Inr msg)
         \<and> length msg = 113 + length ([] :: bytes)
         \<and> snd (ecies_decrypt test_lib test_recipient msg []) = Inr [])"
proof -
  have z: "length (replicate 32 (42 :: byte)) = 32" by simp
  note rt = ecies_roundtrip [OF test_lib_ok test_first_key_bad test_second_key
      test_second_key_ok test_agree1 test_agree2 z]
  have first: "pyelliptic_ECC_init test_lib 0 None None None = Inr (test_keypair (replicate 31 1))"
    by (simp add: test_lib_def test_ECC_init_def)
  have first_bad: "key_bad test_lib (test_keypair (replicate 31 1))"
    by (simp add: key_bad_def test_keypair_def raw_privkey_def truthy_def opt_bytes_def)
  from rt [of hello] rt [of "[]"] test_lib_ok first first_bad test_second_key
    test_second_key_ok z
  show ?thesis by blast
qed

text \<open>
  Claim C4. A message that is empty or whose first byte is not \<open>0x04\<close> is
  rejected with \<open>ECIESDecryptionError\<close>, and nothing of the library has been
  called by then: no key agreement, no key derivation, no hash, no MAC, no
  cipher.
\<close>

theorem bad_header_rejected_first:
  assumes "data = [] \<or> hd data \<noteq> 4"
  shows "ecies_decrypt L self data shared_mac_data =
    ([], Inl (ECIESDecryptionError ''wrong ecies header''))"
proof -
  from assms have "take 1 data \<noteq> [4]"
    by (cases data) auto
  then show ?thesis
    by (simp add: ecies_decrypt_def)
qed

theorem bad_header_rejected_first_witness:
  "(5 # drop 1 test_message = [] \<or> hd (5 # drop 1 test_message) \<noteq> 4)
   \<and> ecies_decrypt test_lib test_recipient (5 # drop 1 test_message) [] =
       ([], Inl (ECIESDecryptionError ''wrong ecies header''))"
  using bad_header_rejected_first [of "5 # drop 1 test_message" test_lib test_recipient "[]"]
  by simp

lemma tampered_ecdh:
  "raw_get_ecdh_key test_lib test_recipient (take 32 (take 64 (drop 1 tampered_message)))
     (drop 32 (take 64 (drop 1 tampered_message))) = Inr (replicate 32 42)"
  by (simp add: test_lib_def test_ecdh_def test_keypair_def test_recipient_def
      tampered_message_def)

lemma tampered_mac:
  "hmac_sha256 test_lib (sha256 test_lib (drop 16 (replicate 32 101)))
     (drop 65 (take (length tampered_message - 32) tampered_message) @ [])
   \<noteq> drop (length tampered_message - 32) tampered_message"
  by (simp add: test_lib_def test_digest_def test_hmac_def tampered_message_def
      sum_list_replicate)

text \<open>
  The cipher is called only for a message whose tag is the MAC, under some
  key, of the bytes between offset 65 and the tag, followed by
  \<open>shared_mac_data\<close>.
\<close>

lemma cipher_only_after_mac:
  assumes "CallCipher \<in> set (fst (ecies_decrypt L self data shared_mac_data))"
  shows "\<exists>key_mac. hmac_sha256 L key_mac
            (drop 65 (take (length data - 32) data) @ shared_mac_data)
          = drop (length data - 32) data"
  using assms
  by (auto simp: ecies_decrypt_def Let_def split: if_splits sum.splits)

text \<open>
  Claim C5, as the code has it. The claim takes the MAC over the ephemeral
  public key, the initialisation vector, the ciphertext and
  \<open>shared_mac_data\<close>. The code, in \<open>ecies_encrypt\<close> as in \<open>ecies_decrypt\<close>,
  takes it over the bytes from offset 65 on: initialisation vector,
  ciphertext and \<open>shared_mac_data\<close>, without the public key. For a message
  with the header \<open>0x04\<close> for which the key agreement and the key derivation
  return, and which has the 32 bytes of a tag: when that MAC is not the tag,
  \<open>ecies_decrypt\<close> raises \<open>ECIESDecryptionError\<close> and has not called the cipher.
\<close>

theorem mac_mismatch_rejected:
  assumes hdr: "take 1 data = [4]"
    and ecdh: "raw_get_ecdh_key L self (take 32 (take 64 (drop 1 data)))
                 (drop 32 (take 64 (drop 1 data))) = Inr key_material"
    and km: "length key_material = 32"
    and sha: "\<forall>x. length (sha256 L x) = 32"
    and kdf: "eciesKDF (sha256 L) key_material 32 = Inr key"
    and tag: "32 \<le> length data"
    and mismatch: "hmac_sha256 L (sha256 L (drop 16 key))
                     (drop 65 (take (length data - 32) data) @ shared_mac_data)
                   \<noteq> drop (length data - 32) data"
  shows "ecies_decrypt L self data shared_mac_data =
           ([CallECDH, CallKDF, CallSHA256, CallHMAC],
            Inl (ECIESDecryptionError ''Fail to verify data''))
         \<and> CallCipher \<notin> set (fst (ecies_decrypt L self data shared_mac_data))"
proof -
  from kdf sha have "length key = 32"
    by (auto simp: eciesKDF_32)
  with hdr ecdh km sha kdf tag mismatch
  have "ecies_decrypt L self data shared_mac_data =
           ([CallECDH, CallKDF, CallSHA256, CallHMAC],
            Inl (ECIESDecryptionError ''Fail to verify data''))"
    by (simp add: ecies_decrypt_def Let_def)
  then show ?thesis by simp
qed

theorem mac_mismatch_rejected_witness:
  "take 1 tampered_message = [4]
   \<and> raw_get_ecdh_key test_lib test_recipient (take 32 (take 64 (drop 1 tampered_message)))
       (drop 32 (take 64 (drop 1 tampered_message))) = Inr (replicate 32 42)
   \<and> length (replicate 32 (42 :: byte)) = 32
   \<and> (\<forall>x. length (sha256 test_lib x) = 32)
   \<and> eciesKDF (sha256 test_lib) (replicate 32 42) 32 = Inr (replicate 32 101)
   \<and> 32 \<le> length tampered_message
   \<and> hmac_sha256 test_lib (sha256 test_lib (drop 16 (replicate 32 101)))
        (drop 65 (take (length tampered_message - 32) tampered_message) @ [])
      \<noteq> drop (length tampered_message - 32) tampered_message
   \<and> ecies_decrypt test_lib test_recipient tampered_message [] =
        ([CallECDH, CallKDF, CallSHA256, CallHMAC],
         Inl (ECIESDecryptionError ''Fail to verify data''))
   \<and> CallCipher \<notin> set (fst (ecies_decrypt test_lib test_recipient tampered_message []))"
proof -
  have hdr: "take 1 tampered_message = [4]"
    by (simp add: tampered_message_def)
  have km: "length (replicate 32 (42 :: byte)) = 32" by simp
  have sha: "\<forall>x. length (sha256 test_lib x) = 32"
    using test_lib_ok by (simp add: lib_ok_def)
  have tag: "32 \<le> length tampered_message"
    by (simp add: tampered_message_def)
  from mac_mismatch_rejected [OF hdr tampered_ecdh km sha test_kdf tag tampered_mac]
    hdr tampered_ecdh km sha test_kdf tag tampered_mac
  show ?thesis by blast
qed

text \<open>
  The message that \<open>ecies_encrypt\<close> returns for \<open>hello\<close> is a counterexample to
  the claim as it is stated: the MAC over public key, initialisation vector,
  ciphertext and \<open>shared_mac_data\<close> is not its tag, and \<open>ecies_decrypt\<close> calls
  the cipher and returns the plaintext.
\<close>

theorem mac_with_pubkey_counterexample:
  "raw_get_ecdh_key test_lib test_recipient (take 32 (take 64 (drop 1 test_message)))
       (drop 32 (take 64 (drop 1 test_message))) = Inr (replicate 32 42)
   \<and> eciesKDF (sha256 test_lib) (replicate 32 42) 32 = Inr (replicate 32 101)
   \<and> hmac_sha256 test_lib (sha256 test_lib (drop 16 (replicate 32 101)))
        (take 64 (drop 1 test_message) @ take 16 (drop 65 test_message)
           @ drop 81 (take (length test_message - 32) test_message) @ [])
      \<noteq> drop (length test_message - 32) test_message
   \<and> ecies_decrypt test_lib test_recipient test_message [] =
        ([CallECDH, CallKDF, CallSHA256, CallHMAC, CallCipher], Inr hello)"
  using test_ecdh_of_message test_kdf test_spec_mac test_decrypt by simp

text \<open>
  Claim C10. A message that \<open>ecies_decrypt\<close> accepts has the header \<open>0x04\<close> and
  at least 113 bytes, and the plaintext returned has 113 bytes less than the
  message: it is what the cipher makes of the bytes between offset 81 and
  the tag, and the cipher keeps the length.
\<close>

theorem accepted_plaintext_length:
  assumes len: "\<forall>k iv x. length (Cipher_ciphering L k iv 0 ecies_ciphername x) = length x"
    and acc: "ecies_decrypt L self data shared_mac_data = (tr, Inr p)"
  shows "take 1 data = [4] \<and> 113 \<le> length data
    \<and> int (length p) = int (length data) - 113
    \<and> (\<exists>key_enc. p = Cipher_ciphering L key_enc (take 16 (drop 65 data)) 0 ecies_ciphername
                      (drop 81 (take (length data - 32) data)))"
proof -
  let ?bs = "get_blocksize L ecies_ciphername"
  let ?iv = "take ?bs (drop (1 + 64) data)"
  let ?ct = "drop (1 + 64 + ?bs) (take (length data - 32) data)"
  from acc have hdr: "take 1 data = [4]"
    by (auto simp: ecies_decrypt_def split: if_splits)
  from acc obtain key_enc where p: "p = Cipher_ciphering L key_enc ?iv 0 ecies_ciphername ?ct"
    and iv: "length ?iv = 16"
    and sum: "1 + length (take 64 (drop 1 data)) + length ?iv + length ?ct
                + length (drop (length data - 32) data) = length data"
    and tag: "length (drop (length data - 32) data) = 32"
    by (auto simp: ecies_decrypt_def Let_def split: if_splits sum.splits)
  from iv sum tag have bs: "?bs = 16" and n: "113 \<le> length data"
    by (simp_all add: min_def split: if_splits)
  from bs n have "length ?ct = length data - 113" by simp
  with p len n have "int (length p) = int (length data) - 113" by simp
  moreover from p bs have "p = Cipher_ciphering L key_enc (take 16 (drop 65 data)) 0
      ecies_ciphername (drop 81 (take (length data - 32) data))"
    by simp
  ultimately show ?thesis using n hdr by blast
qed

theorem accepted_plaintext_length_witness:
  "(\<forall>k iv x. length (Cipher_ciphering test_lib k iv 0 ecies_ciphername x) = length x)
   \<and> ecies_decrypt test_lib test_recipient test_message [] =
        ([CallECDH, CallKDF, CallSHA256, CallHMAC, CallCipher], Inr hello)
   \<and> take 1 test_message = [4] \<and> 113 \<le> length test_message
   \<and> int (length hello) = int (length test_message) - 113"
proof -
  have len: "\<forall>k iv x. length (Cipher_ciphering test_lib k iv 0 ecies_ciphername x) = length x"
    using test_lib_ok by (simp add: lib_ok_def)
  from accepted_plaintext_length [OF len test_decrypt] len test_decrypt
  show ?thesis by blast
qed

section \<open>ECDSA: verification\<close>

lemma test_verify_short_signature:
  "ecdsa_verify test_lib (replicate 64 0) (replicate 64 0) (replicate 32 0) =
     Inl (PyException ''Serialized signature must be 65 bytes long.'')"
  by (simp add: ecdsa_verify_def test_lib_def test_recover_def)

lemma test_verify_short_pubkey:
  "ecdsa_verify test_lib (replicate 63 0) (replicate 65 0) (replicate 32 0) = Inl AssertionError"
  by (simp add: ecdsa_verify_def)

text \<open>
  Claim C3, as the code has it. The claim says that \<open>ecdsa_verify\<close> never
  raises and answers false where the recovery fails. The code has no handler:
  it raises \<open>AssertionError\<close> for a public key that is not 64 bytes long, and an
  exception of the recovery is the exception of \<open>ecdsa_verify\<close>. Where the
  recovery returns a key in the uncompressed format (first byte \<open>0x04\<close>), the
  answer is true exactly when the other 64 bytes, which are what
  \<open>ecdsa_recover\<close> returns, are the public key given.
\<close>

theorem ecdsa_verify_outcomes:
  "(length pubkey \<noteq> 64 \<longrightarrow> ecdsa_verify L pubkey signature message = Inl AssertionError)
   \<and> (length pubkey = 64 \<and> from_signature_and_message L signature message = Inl e
        \<longrightarrow> ecdsa_verify L pubkey signature message = Inl e)
   \<and> (length pubkey = 64 \<and> length signature = 65
        \<and> from_signature_and_message L signature message = Inr pk \<and> take 1 pk = [4]
        \<longrightarrow> ecdsa_recover L message signature = Inr (drop 1 pk)
            \<and> ecdsa_verify L pubkey signature message = Inr (drop 1 pk = pubkey))"
proof (intro conjI impI)
  assume "length pubkey \<noteq> 64"
  then show "ecdsa_verify L pubkey signature message = Inl AssertionError"
    by (simp add: ecdsa_verify_def)
next
  assume "length pubkey = 64 \<and> from_signature_and_message L signature message = Inl e"
  then show "ecdsa_verify L pubkey signature message = Inl e"
    by (simp add: ecdsa_verify_def)
next
  assume a: "length pubkey = 64 \<and> length signature = 65
        \<and> from_signature_and_message L signature message = Inr pk \<and> take 1 pk = [4]"
  then show "ecdsa_recover L message signature = Inr (drop 1 pk)"
    by (simp add: ecdsa_recover_def)
next
  assume a: "length pubkey = 64 \<and> length signature = 65
        \<and> from_signature_and_message L signature message = Inr pk \<and> take 1 pk = [4]"
  then obtain rest where pk: "pk = 4 # rest"
    by (cases pk) auto
  with a show "ecdsa_verify L pubkey signature message = Inr (drop 1 pk = pubkey)"
    by (simp add: ecdsa_verify_def)
qed

theorem ecdsa_verify_outcomes_witness:
  "ecdsa_verify test_lib [] (replicate 64 7 @ [0]) [] = Inl AssertionError
   \<and> ecdsa_verify test_lib (replicate 64 7) [1, 2, 3] [] =
       Inl (PyException ''Serialized signature must be 65 bytes long.'')
   \<and> ecdsa_recover test_lib [] (replicate 64 7 @ [0]) = Inr (replicate 64 7)
   \<and> ecdsa_verify test_lib (replicate 64 7) (replicate 64 7 @ [0]) [] = Inr True
   \<and> ecdsa_verify test_lib (replicate 64 8) (replicate 64 7 @ [0]) [] = Inr False"
proof -
  note main = ecdsa_verify_outcomes
  have short: "from_signature_and_message test_lib [1, 2, 3] [] =
      Inl (PyException ''Serialized signature must be 65 bytes long.'')"
    by (simp add: test_lib_def test_recover_def)
  have good: "from_signature_and_message test_lib (replicate 64 7 @ [0]) [] =
      Inr (4 # replicate 64 7)"
    by (simp add: test_lib_def test_recover_def)
  from main [of "[]" test_lib "replicate 64 7 @ [0]" "[]"]
  have r1: "ecdsa_verify test_lib [] (replicate 64 7 @ [0]) [] = Inl AssertionError"
    by simp
  from main [of "replicate 64 7" test_lib "[1, 2, 3]" "[]"
      "PyException ''Serialized signature must be 65 bytes long.''"] short
  have r2: "ecdsa_verify test_lib (replicate 64 7) [1, 2, 3] [] =
       Inl (PyException ''Serialized signature must be 65 bytes long.'')"
    by simp
  from main [of "replicate 64 7" test_lib "replicate 64 7 @ [0]" "[]" _ "4 # replicate 64 7"] good
  have r3: "ecdsa_recover test_lib [] (replicate 64 7 @ [0]) = Inr (replicate 64 7)"
    and r4: "ecdsa_verify test_lib (replicate 64 7) (replicate 64 7 @ [0]) [] = Inr True"
    by simp_all
  from main [of "replicate 64 8" test_lib "replicate 64 7 @ [0]" "[]" _ "4 # replicate 64 7"] good
  have r5: "ecdsa_verify test_lib (replicate 64 8) (replicate 64 7 @ [0]) [] = Inr False"
    by simp
  from r1 r2 r3 r4 r5 show ?thesis by simp
qed

theorem ecdsa_verify_raises_counterexample:
  "ecdsa_verify test_lib (replicate 64 0) (replicate 64 0) (replicate 32 0) =
     Inl (PyException ''Serialized signature must be 65 bytes long.'')
   \<and> ecdsa_verify test_lib (replicate 63 0) (replicate 65 0) (replicate 32 0) =
     Inl AssertionError"
  using test_verify_short_signature test_verify_short_pubkey by simp

end
